theory Spec2Isabelle
  imports Main "HOL-Library.Word"
begin

section \<open>Values shared by the whole program\<close>

text \<open>
  A Go \<^verbatim>\<open>[]byte\<close> is a list of 8-bit words. A Go \<^verbatim>\<open>error\<close> is an interface value;
  \<^verbatim>\<open>nil\<close> is \<open>None\<close>. The three sentinel errors of package \<^verbatim>\<open>io\<close> that the program
  meets are constructors of their own, every other error carries its message.
\<close>

type_synonym byte = "8 word"

datatype error = ErrClosedPipe | ErrShortWrite | EOF | Other string

text \<open>A run-time panic of Go; it ends the goroutine (and, not recovered, the process).\<close>

datatype panic =
  MakesliceLenOutOfRange | SendOnClosedChannel | CloseOfClosedChannel | NilPointerDereference

section \<open>The environment: \<^verbatim>\<open>io.Pipe\<close> of the Go standard library\<close>

text \<open>
  \<^verbatim>\<open>io.Pipe()\<close> allocates one pipe object and returns a \<^verbatim>\<open>*PipeReader\<close> and a
  \<^verbatim>\<open>*PipeWriter\<close> that both point to it. The pipe objects live in a store; an address
  is an index of the store, and both halves of a pipe are its address, so whatever one
  half does to the pipe the other half sees.

  The standard library's pipe keeps two once-only error cells: \<open>rerr\<close> is set when the
  read half is closed, \<open>werr\<close> when the write half is closed; the pipe is done as soon
  as one of them is set. The program runs the two halves in different goroutines; the
  model is sequential, one whole call at a time. A Go \<^verbatim>\<open>Write\<close> returns only when the
  read half has taken all its bytes; here \<open>pending\<close> holds the bytes that were handed
  to the pipe and that the read half has not taken yet, and a \<open>Read\<close> hands them out
  before it reports that the write half was closed (in Go the write half cannot be
  closed by its writer before they are taken).
\<close>

record pipe =
  pending :: "byte list"
  rerr :: "error option"
  werr :: "error option"

type_synonym heap = "pipe list"

definition new_pipe :: pipe where
  "new_pipe = \<lparr>pending = [], rerr = None, werr = None\<rparr>"

definition io_Pipe :: "heap \<Rightarrow> (nat \<times> nat) \<times> heap" where
  "io_Pipe h = ((length h, length h), h @ [new_pipe])"

definition pipe_done :: "pipe \<Rightarrow> bool" where
  "pipe_done p = (rerr p \<noteq> None \<or> werr p \<noteq> None)"

definition writeCloseError :: "pipe \<Rightarrow> error" where
  "writeCloseError p =
     (if werr p = None \<and> rerr p \<noteq> None then the (rerr p) else ErrClosedPipe)"

definition readCloseError :: "pipe \<Rightarrow> error" where
  "readCloseError p =
     (if rerr p = None \<and> werr p \<noteq> None then the (werr p) else ErrClosedPipe)"

text \<open>
  An interface value is modelled by its method, closed over the receiver: an
  \<^verbatim>\<open>io.Writer\<close> is what its \<^verbatim>\<open>Write\<close> does to the store and returns, an \<^verbatim>\<open>io.Closer\<close>
  what its \<^verbatim>\<open>Close\<close> does and returns. The count \<open>n\<close> a writer returns is a Go
  \<^verbatim>\<open>int\<close>; nothing forces an implementation to return a count between 0 and the
  length of the chunk.
\<close>

type_synonym io_Writer = "byte list \<Rightarrow> heap \<Rightarrow> (int \<times> error option) \<times> heap"
type_synonym io_Closer = "heap \<Rightarrow> error option \<times> heap"

text \<open>
  \<^verbatim>\<open>(*PipeWriter).Write\<close>: on a pipe that is done nothing is written and the close error
  is returned; else the whole chunk goes to the read half. Go has no dangling pointer;
  on an address outside the store every operation of the model leaves the store alone
  and returns an error.
\<close>

definition PipeWriter_Write :: "nat \<Rightarrow> io_Writer" where
  "PipeWriter_Write a b h =
     (if a < length h then
        (if pipe_done (h ! a) then ((0, Some (writeCloseError (h ! a))), h)
         else ((int (length b), None),
               h[a := (h ! a)\<lparr>pending := pending (h ! a) @ b\<rparr>]))
      else ((0, Some (Other ''no such pipe'')), h))"

text \<open>
  \<^verbatim>\<open>(*PipeWriter).Close\<close> is \<^verbatim>\<open>CloseWithError(nil)\<close>: it stores \<^verbatim>\<open>io.EOF\<close> in \<open>werr\<close>
  unless \<open>werr\<close> is set already, and always returns \<^verbatim>\<open>nil\<close>.
  \<^verbatim>\<open>(*PipeReader).Close\<close> stores \<^verbatim>\<open>io.ErrClosedPipe\<close> in \<open>rerr\<close> the same way.
\<close>

definition PipeWriter_Close :: "nat \<Rightarrow> io_Closer" where
  "PipeWriter_Close a h =
     (if a < length h then
        (None, h[a := (h ! a)\<lparr>werr := (if werr (h ! a) = None then Some EOF else werr (h ! a))\<rparr>])
      else (None, h))"

definition PipeReader_Close :: "nat \<Rightarrow> io_Closer" where
  "PipeReader_Close a h =
     (if a < length h then
        (None, h[a := (h ! a)\<lparr>rerr := (if rerr (h ! a) = None then Some ErrClosedPipe else rerr (h ! a))\<rparr>])
      else (None, h))"

text \<open>
  \<^verbatim>\<open>(*PipeReader).Read\<close> into a buffer of \<open>k\<close> bytes. The call either returns bytes, or
  returns an error, or has nothing to return yet and suspends its goroutine until the
  other half writes or closes.
\<close>

datatype read_result = Got "byte list" | Failed error | Suspended

definition PipeReader_Read :: "nat \<Rightarrow> nat \<Rightarrow> heap \<Rightarrow> read_result \<times> heap" where
  "PipeReader_Read a k h =
     (if a < length h then
        (if rerr (h ! a) \<noteq> None then (Failed (readCloseError (h ! a)), h)
         else if pending (h ! a) \<noteq> [] then
           (Got (take k (pending (h ! a))),
            h[a := (h ! a)\<lparr>pending := drop k (pending (h ! a))\<rparr>])
         else if werr (h ! a) \<noteq> None then (Failed (readCloseError (h ! a)), h)
         else (Suspended, h))
      else (Failed (Other ''no such pipe''), h))"

section \<open>The stream broadcaster (multi\_writer\_pipe.go)\<close>

subsection \<open>The read endpoint\<close>

text \<open>
  \<^verbatim>\<open>SingleInMultiOutPipeReader\<close> embeds an \<^verbatim>\<open>io.Reader\<close> and holds an \<^verbatim>\<open>io.Closer\<close> that
  may be \<^verbatim>\<open>nil\<close>. The reader is always the read half of a pipe, given by its address.
\<close>

record SingleInMultiOutPipeReader =
  Reader :: nat
  closer :: "io_Closer option"

definition Reader_Close :: "SingleInMultiOutPipeReader \<Rightarrow> heap \<Rightarrow> error option \<times> heap" where
  "Reader_Close r h = (case closer r of Some c \<Rightarrow> c h | None \<Rightarrow> (None, h))"

subsection \<open>The write endpoint\<close>

text \<open>
  The mutex \<^verbatim>\<open>mu\<close> is held for the whole body of \<^verbatim>\<open>Write\<close> and of \<^verbatim>\<open>Close\<close>, so the two
  bodies never overlap: each is one step on the state of the endpoint and the store.
\<close>

record SingleInMultiOutPipeWriter =
  writers :: "io_Writer list"
  closers :: "io_Closer list"
  closed :: bool

text \<open>The loop of \<^verbatim>\<open>Write\<close> over \<^verbatim>\<open>w.writers\<close>, with the variable \<^verbatim>\<open>firstErr\<close>.\<close>

fun Write_loop :: "io_Writer list \<Rightarrow> byte list \<Rightarrow> error option \<Rightarrow> heap \<Rightarrow> error option \<times> heap" where
  "Write_loop [] p firstErr h = (firstErr, h)"
| "Write_loop (writer # rest) p firstErr h =
     (case writer p h of
        ((n, err), h') \<Rightarrow>
          (let firstErr1 = (if err \<noteq> None \<and> firstErr = None then err else firstErr);
               firstErr2 = (if n \<noteq> int (length p) \<and> firstErr1 = None
                            then Some ErrShortWrite else firstErr1)
           in Write_loop rest p firstErr2 h'))"

definition Write :: "SingleInMultiOutPipeWriter \<Rightarrow> byte list \<Rightarrow> heap \<Rightarrow> (int \<times> error option) \<times> heap" where
  "Write w p h =
     (if closed w then ((0, Some ErrClosedPipe), h)
      else (case Write_loop (writers w) p None h of
              (firstErr, h') \<Rightarrow>
                (if firstErr \<noteq> None then ((int (length p), firstErr), h')
                 else ((int (length p), None), h'))))"

text \<open>The loop of \<^verbatim>\<open>Close\<close> over \<^verbatim>\<open>w.closers\<close>, with the slice \<^verbatim>\<open>errs\<close>.\<close>

fun Close_loop :: "io_Closer list \<Rightarrow> error list \<Rightarrow> heap \<Rightarrow> error list \<times> heap" where
  "Close_loop [] errs h = (errs, h)"
| "Close_loop (c # rest) errs h =
     (case c h of
        (err, h') \<Rightarrow> Close_loop rest (if err \<noteq> None then errs @ [the err] else errs) h')"

definition Close :: "SingleInMultiOutPipeWriter \<Rightarrow> heap \<Rightarrow> error option \<times> SingleInMultiOutPipeWriter \<times> heap" where
  "Close w h =
     (if closed w then (None, w, h)
      else (case Close_loop (closers w) [] h of
              (errs, h') \<Rightarrow>
                (if length errs > 0 then (Some (errs ! 0), w\<lparr>closed := True\<rparr>, h')
                 else (None, w\<lparr>closed := True\<rparr>, h'))))"

subsection \<open>The constructor\<close>

text \<open>
  The loop of \<^verbatim>\<open>SingleInMultiOutPipe\<close>: one \<^verbatim>\<open>io.Pipe()\<close> for each index, in increasing
  order; the argument counts the indices still to do.
\<close>

fun Pipe_loop :: "nat \<Rightarrow> heap \<Rightarrow> (io_Writer list \<times> io_Closer list \<times> SingleInMultiOutPipeReader list) \<times> heap" where
  "Pipe_loop 0 h = (([], [], []), h)"
| "Pipe_loop (Suc k) h =
     (case io_Pipe h of
        ((pr, pw), h1) \<Rightarrow>
          (case Pipe_loop k h1 of
             ((ws, cs, rs), h2) \<Rightarrow>
               ((PipeWriter_Write pw # ws,
                 PipeWriter_Close pw # cs,
                 \<lparr>Reader = pr, closer = Some (PipeReader_Close pr)\<rparr> # rs), h2)))"

text \<open>
  \<^verbatim>\<open>readerCount\<close> is a Go \<^verbatim>\<open>int\<close> and is not checked: \<^verbatim>\<open>make\<close> panics on a negative
  length, and on 0 the loop does not run.
\<close>

definition SingleInMultiOutPipe ::
  "int \<Rightarrow> heap \<Rightarrow> panic + (SingleInMultiOutPipeWriter \<times> SingleInMultiOutPipeReader list) \<times> heap" where
  "SingleInMultiOutPipe readerCount h =
     (if readerCount < 0 then Inl MakesliceLenOutOfRange
      else (case Pipe_loop (nat readerCount) h of
              ((ws, cs, rs), h') \<Rightarrow>
                Inr ((\<lparr>writers = ws, closers = cs, closed = False\<rparr>, rs), h')))"

section \<open>The environment: \<^verbatim>\<open>io.Copy\<close> reading from a pipe\<close>

text \<open>
  The consumers read their endpoint with \<^verbatim>\<open>io.Copy(dst, src)\<close>: it reads \<^verbatim>\<open>src\<close> into a
  buffer of 32 KiB and appends what it got to \<^verbatim>\<open>dst\<close>, until a read returns an error;
  \<^verbatim>\<open>io.EOF\<close> ends the copy without an error. The destinations of the program are
  in-memory buffers, whose \<^verbatim>\<open>Write\<close> never fails, so \<open>dst\<close> is the content of the
  buffer. A copy whose read suspends has not returned: its end is \<open>Waiting\<close>. A read of
  no bytes and no error would make Go's loop read again; a pipe never returns that, and
  the model ends the copy there as \<open>Waiting\<close>.
\<close>

definition io_Copy_bufsize :: nat where
  "io_Copy_bufsize = 32 * 1024"

datatype copy_end = Finished "error option" | Waiting

function io_Copy :: "nat \<Rightarrow> byte list \<Rightarrow> heap \<Rightarrow> (byte list \<times> copy_end) \<times> heap" where
  "io_Copy src dst h =
     (case PipeReader_Read src io_Copy_bufsize h of
        (Got bs, h') \<Rightarrow>
          (if bs = [] then ((dst, Waiting), h') else io_Copy src (dst @ bs) h')
      | (Failed er, h') \<Rightarrow> ((dst, Finished (if er = EOF then None else Some er)), h')
      | (Suspended, h') \<Rightarrow> ((dst, Waiting), h'))"
  by pat_completeness auto
termination
  apply (relation "measure (\<lambda>(src, dst, h). length (pending (h ! src)))")
   apply simp
  apply (auto simp: PipeReader_Read_def io_Copy_bufsize_def split: if_splits)
  done

declare io_Copy.simps [simp del]

section \<open>The archival consumer (internal/concierge/concierge.go)\<close>

record Client =
  addr :: string
  token :: string

text \<open>
  \<^verbatim>\<open>PostImage\<close> calls \<^verbatim>\<open>mime/multipart\<close>, \<^verbatim>\<open>net/http\<close> and \<^verbatim>\<open>encoding/json\<close>. What those
  calls answer is the environment of one call of \<^verbatim>\<open>PostImage\<close>: the bytes
  \<^verbatim>\<open>CreateFormFile\<close> puts into \<^verbatim>\<open>body\<close> (or its error), the bytes the two
  \<^verbatim>\<open>WriteField\<close> calls add for a mime type (their errors are dropped by the code), the
  bytes \<^verbatim>\<open>writer.Close\<close> adds (or its error), the error of \<^verbatim>\<open>http.NewRequest\<close>, the
  response body the server sends for a request body (or the error of \<^verbatim>\<open>Do\<close>), and
  the key decoded from a response body (or the error of \<^verbatim>\<open>Decode\<close>).
\<close>

record PostImage_env =
  CreateFormFile :: "error + byte list"
  WriteField :: "string \<Rightarrow> byte list"
  writer_Close :: "error + byte list"
  NewRequest :: "error option"
  Do :: "byte list \<Rightarrow> error + byte list"
  Decode :: "byte list \<Rightarrow> error + string"

text \<open>
  \<^verbatim>\<open>PostImage\<close> up to the end of \<^verbatim>\<open>io.Copy(fileWriter, image)\<close>: the error of
  \<^verbatim>\<open>CreateFormFile\<close>, or else the content of the local variable \<^verbatim>\<open>body\<close> (a
  \<^verbatim>\<open>bytes.Buffer\<close>, which the part writer writes through to), how the copy ended, and
  the store. \<open>img\<close> is the parameter \<^verbatim>\<open>image\<close>.
\<close>

definition PostImage_copy ::
  "PostImage_env \<Rightarrow> SingleInMultiOutPipeReader \<Rightarrow> heap
     \<Rightarrow> error + ((byte list \<times> copy_end) \<times> heap)" where
  "PostImage_copy env img h =
     (case CreateFormFile env of
        Inl err \<Rightarrow> Inl err
      | Inr hdr \<Rightarrow> Inr (io_Copy (Reader img) hdr h))"

text \<open>The result is \<open>None\<close> when the call has not returned (its copy is suspended).\<close>

definition PostImage ::
  "Client \<Rightarrow> PostImage_env \<Rightarrow> SingleInMultiOutPipeReader \<Rightarrow> string \<Rightarrow> heap
     \<Rightarrow> (string \<times> error option) option \<times> heap" where
  "PostImage c env img mimeType h =
     (case PostImage_copy env img h of
        Inl err \<Rightarrow> (Some ('''', Some err), h)
      | Inr ((body, Waiting), h') \<Rightarrow> (None, h')
      | Inr ((body, Finished (Some err)), h') \<Rightarrow> (Some ('''', Some err), h')
      | Inr ((body, Finished None), h') \<Rightarrow>
          (case writer_Close env of
             Inl err \<Rightarrow> (Some ('''', Some err), h')
           | Inr trailer \<Rightarrow>
               (case NewRequest env of
                  Some err \<Rightarrow> (Some ('''', Some err), h')
                | None \<Rightarrow>
                    (case Do env (body @ WriteField env mimeType @ trailer) of
                       Inl err \<Rightarrow> (Some ('''', Some err), h')
                     | Inr resp \<Rightarrow>
                         (case Decode env resp of
                            Inl err \<Rightarrow> (Some ('''', Some err), h')
                          | Inr key \<Rightarrow>
                              (Some (addr c @ ''/luggage/'' @ key, None), h'))))))"

section \<open>The fan-out coordinator and the delivery queue (main.go)\<close>

text \<open>
  \<^verbatim>\<open>main.go\<close> is modelled as it stands after the move to \<^verbatim>\<open>SingleInMultiOutPipe\<close> (the
  version with \<^verbatim>\<open>genaiClient\<close>, where both consumers run in goroutines of their own and
  are joined by a \<^verbatim>\<open>sync.WaitGroup\<close>).

  \<^verbatim>\<open>*genai.GasMeterReadResult\<close> is a pointer that may be \<^verbatim>\<open>nil\<close>; \<^verbatim>\<open>Luggage\<close> embeds it.
\<close>

record GasMeterReadResult =
  Read :: string
  Date :: string
  ReadAt :: int
  ItTakes :: string

record Luggage =
  GasMeterReadResult :: "GasMeterReadResult option"
  SrcImageURL :: string

text \<open>
  A buffered Go channel: a send on a closed channel panics, a send on a full channel
  suspends the sender, any other send appends to the buffer.
  \<^verbatim>\<open>chLuggage = make(chan *Luggage, 10)\<close>.
\<close>

record 'a chan =
  buf :: "'a list"
  cap :: nat
  chan_closed :: bool

datatype 'a outcome = Returns 'a | Blocks | Panics panic

definition chan_send :: "'a chan \<Rightarrow> 'a \<Rightarrow> 'a chan outcome" where
  "chan_send ch v =
     (if chan_closed ch then Panics SendOnClosedChannel
      else if length (buf ch) < cap ch then Returns (ch\<lparr>buf := buf ch @ [v]\<rparr>)
      else Blocks)"

definition make_chLuggage :: "Luggage chan" where
  "make_chLuggage = \<lparr>buf = [], cap = 10, chan_closed = False\<rparr>"

text \<open>\<^verbatim>\<open>close(chLuggage)\<close>, which \<^verbatim>\<open>main\<close> runs once at shutdown.\<close>

definition close_chan :: "'a chan \<Rightarrow> 'a chan outcome" where
  "close_chan ch =
     (if chan_closed ch then Panics CloseOfClosedChannel
      else Returns (ch\<lparr>chan_closed := True\<rparr>))"

text \<open>
  The single-shot branch of \<^verbatim>\<open>main\<close>, from \<^verbatim>\<open>wg.Wait()\<close> on. The arguments are what the
  two consumer goroutines stored: \<^verbatim>\<open>srcImgStoredURL, conciergeErr\<close> from \<^verbatim>\<open>PostImage\<close> and
  \<^verbatim>\<open>readResult, geminiErr\<close> from \<^verbatim>\<open>ReadGasGuagePic\<close>. The result is the channel after the
  goroutine has ended.
\<close>

definition main_singleShot_join ::
  "string \<times> error option \<Rightarrow> GasMeterReadResult option \<times> error option
     \<Rightarrow> Luggage chan \<Rightarrow> Luggage chan outcome" where
  "main_singleShot_join archival extraction chLuggage =
     (case archival of
        (srcImgStoredURL, conciergeErr) \<Rightarrow>
          (case extraction of
             (readResult, geminiErr) \<Rightarrow>
               (if geminiErr \<noteq> None then Returns chLuggage
                else if readResult = None then Returns chLuggage
                else chan_send chLuggage
                       \<lparr>GasMeterReadResult = readResult, SrcImageURL = srcImgStoredURL\<rparr>)))"

text \<open>
  The goroutine of \<^verbatim>\<open>mqttReadGuageSubHandler\<close>, from \<^verbatim>\<open>wg.Wait()\<close> on. The \<^verbatim>\<open>return\<close>
  statements after the log lines are inside the two consumer goroutines and end only
  those; the code after \<^verbatim>\<open>wg.Wait()\<close> tests nothing.
\<close>

definition mqttReadGuageSubHandler_join ::
  "string \<times> error option \<Rightarrow> GasMeterReadResult option \<times> error option
     \<Rightarrow> Luggage chan \<Rightarrow> Luggage chan outcome" where
  "mqttReadGuageSubHandler_join archival extraction chLuggage =
     (case archival of
        (srcImgStoredURL, err) \<Rightarrow>
          (case extraction of
             (readResult, err') \<Rightarrow>
               chan_send chLuggage
                 \<lparr>GasMeterReadResult = readResult, SrcImageURL = srcImgStoredURL\<rparr>))"

text \<open>
  The consumer of \<^verbatim>\<open>chLuggage\<close> starts with \<^verbatim>\<open>readResult.Read\<close>, a field promoted from
  the embedded pointer: on a \<^verbatim>\<open>nil\<close> pointer the access panics.
\<close>

definition Luggage_Read :: "Luggage \<Rightarrow> panic + string" where
  "Luggage_Read l =
     (case GasMeterReadResult l of
        None \<Rightarrow> Inl NilPointerDereference
      | Some r \<Rightarrow> Inr (Read r))"

section \<open>Descriptions used in the statements\<close>

text \<open>
  What the specification says of one \<^verbatim>\<open>Write\<close>: the chunk is handed to every writer,
  one after the other, whatever the writers before returned (\<open>forward_all\<close> is the
  store after that, \<open>forward_outcomes\<close> what each writer returned), and the error is
  that of the first forward that failed or wrote another count than the length of the
  chunk (\<open>first_failure\<close>).
\<close>

fun forward_all :: "io_Writer list \<Rightarrow> byte list \<Rightarrow> heap \<Rightarrow> heap" where
  "forward_all [] p h = h"
| "forward_all (writer # rest) p h = forward_all rest p (snd (writer p h))"

fun forward_outcomes :: "io_Writer list \<Rightarrow> byte list \<Rightarrow> heap \<Rightarrow> (int \<times> error option) list" where
  "forward_outcomes [] p h = []"
| "forward_outcomes (writer # rest) p h =
     fst (writer p h) # forward_outcomes rest p (snd (writer p h))"

fun first_failure :: "nat \<Rightarrow> (int \<times> error option) list \<Rightarrow> error option" where
  "first_failure len [] = None"
| "first_failure len ((n, err) # rest) =
     (if err \<noteq> None then err
      else if n \<noteq> int len then Some ErrShortWrite
      else first_failure len rest)"




text \<open>
  An implementation of \<^verbatim>\<open>io.Writer\<close> other than a pipe, for the case a pipe never shows:
  a writer that reports a count and no error.
\<close>

definition counting_writer :: "int \<Rightarrow> io_Writer" where
  "counting_writer n b h = ((n, None), h)"

text \<open>
  What one forward does to a pipe and returns, the write half's \<^verbatim>\<open>Close\<close> on a pipe, and
  the pipes the statements name: open, with its write half closed, with its read half
  closed; each with the bytes not yet taken.
\<close>

definition deliver :: "byte list \<Rightarrow> pipe \<Rightarrow> pipe" where
  "deliver b q = (if pipe_done q then q else q\<lparr>pending := pending q @ b\<rparr>)"

definition forward_outcome :: "byte list \<Rightarrow> pipe \<Rightarrow> int \<times> error option" where
  "forward_outcome b q =
     (if pipe_done q then (0, Some (writeCloseError q)) else (int (length b), None))"

definition close_write :: "pipe \<Rightarrow> pipe" where
  "close_write q = q\<lparr>werr := (if werr q = None then Some EOF else werr q)\<rparr>"

definition open_pipe :: "byte list \<Rightarrow> pipe" where
  "open_pipe B = \<lparr>pending = B, rerr = None, werr = None\<rparr>"

definition closed_pipe :: "byte list \<Rightarrow> pipe" where
  "closed_pipe B = \<lparr>pending = B, rerr = None, werr = Some EOF\<rparr>"

definition abandoned_pipe :: "byte list \<Rightarrow> pipe" where
  "abandoned_pipe B = \<lparr>pending = B, rerr = Some ErrClosedPipe, werr = None\<rparr>"

text \<open>
  An environment of \<^verbatim>\<open>PostImage\<close> in which the multipart writer adds no bytes and the
  server refuses the connection.
\<close>

definition refusing_env :: PostImage_env where
  "refusing_env =
     \<lparr>CreateFormFile = Inr [], WriteField = (\<lambda>mimeType. []), writer_Close = Inr [],
      NewRequest = None, Do = (\<lambda>body. Inl (Other ''connection refused'')),
      Decode = (\<lambda>resp. Inl (Other ''no response''))\<rparr>"

definition mk_reader :: "nat \<Rightarrow> SingleInMultiOutPipeReader" where
  "mk_reader a = \<lparr>Reader = a, closer = Some (PipeReader_Close a)\<rparr>"

text \<open>
  A producer that calls \<^verbatim>\<open>Write\<close> once for each chunk, whatever the calls before
  returned, and consumers that each copy their endpoint to the end, one after the other.
\<close>

fun Write_chunks ::
  "SingleInMultiOutPipeWriter \<Rightarrow> byte list list \<Rightarrow> heap \<Rightarrow> (int \<times> error option) list \<times> heap" where
  "Write_chunks w [] h = ([], h)"
| "Write_chunks w (c # cs) h =
     (case Write w c h of
        (r, h1) \<Rightarrow> (case Write_chunks w cs h1 of (rs, h2) \<Rightarrow> (r # rs, h2)))"

fun drain_all ::
  "SingleInMultiOutPipeReader list \<Rightarrow> heap \<Rightarrow> (byte list \<times> copy_end) list \<times> heap" where
  "drain_all [] h = ([], h)"
| "drain_all (r # rs) h =
     (case io_Copy (Reader r) [] h of
        (out, h1) \<Rightarrow> (case drain_all rs h1 of (outs, h2) \<Rightarrow> (out # outs, h2)))"

text \<open>
  A run of a broadcaster and its readers, one call at a time: a step is a \<^verbatim>\<open>Write\<close> of
  a chunk on the write endpoint, or a \<^verbatim>\<open>Read\<close> of reader \<open>i\<close> into a buffer of \<open>k\<close>
  bytes. The state is the store, what the writes returned so far, and for each reader the
  bytes it has read so far. \<open>written\<close> is the bytes of all the chunks of a run in order,
  \<open>write_results\<close> the full length and no error for each of its writes.
\<close>

datatype step = DoWrite "byte list" | DoRead nat nat

fun run_steps ::
  "SingleInMultiOutPipeWriter \<Rightarrow> SingleInMultiOutPipeReader list \<Rightarrow> step list
     \<Rightarrow> heap \<times> (int \<times> error option) list \<times> byte list list
     \<Rightarrow> heap \<times> (int \<times> error option) list \<times> byte list list" where
  "run_steps w rs [] s = s"
| "run_steps w rs (DoWrite c # steps) (h, res, outs) =
     (case Write w c h of (r, h') \<Rightarrow> run_steps w rs steps (h', res @ [r], outs))"
| "run_steps w rs (DoRead i k # steps) (h, res, outs) =
     (if i < length rs then
        (case PipeReader_Read (Reader (rs ! i)) k h of
           (Got bs, h') \<Rightarrow> run_steps w rs steps (h', res, outs[i := outs ! i @ bs])
         | (Failed e, h') \<Rightarrow> run_steps w rs steps (h', res, outs)
         | (Suspended, h') \<Rightarrow> run_steps w rs steps (h', res, outs))
      else run_steps w rs steps (h, res, outs))"

fun written :: "step list \<Rightarrow> byte list" where
  "written [] = []"
| "written (DoWrite c # steps) = c @ written steps"
| "written (DoRead i k # steps) = written steps"

fun write_results :: "step list \<Rightarrow> (int \<times> error option) list" where
  "write_results [] = []"
| "write_results (DoWrite c # steps) = (int (length c), None) # write_results steps"
| "write_results (DoRead i k # steps) = write_results steps"





section \<open>The loops of the write endpoint\<close>

lemma Write_loop_eq:
  "Write_loop ws p firstErr h =
     ((if firstErr \<noteq> None then firstErr
       else first_failure (length p) (forward_outcomes ws p h)),
      forward_all ws p h)"
proof (induction ws arbitrary: firstErr h)
  case Nil
  then show ?case by simp
next
  case (Cons writer rest)
  obtain n err h' where wr: "writer p h = ((n, err), h')"
    by (metis prod.exhaust)
  show ?case
    by (cases err; cases firstErr) (simp_all add: wr Cons.IH)
qed

lemma length_forward_outcomes: "length (forward_outcomes ws p h) = length ws"
  by (induction ws arbitrary: h) simp_all





section \<open>Claims about one call on the write endpoint\<close>

text \<open>
  C3. On a write endpoint that is not closed, \<open>Write w p\<close> hands \<open>p\<close> to every one of
  its writers, in order and whatever the earlier ones returned; it returns the full
  length of \<open>p\<close> as the count, and as the error that of the first forward that failed
  or wrote another count than the length of \<open>p\<close> (no error if there is none).
\<close>

theorem Write_forwards_to_all:
  "\<not> closed w \<Longrightarrow>
     Write w p h =
       ((int (length p), first_failure (length p) (forward_outcomes (writers w) p h)),
        forward_all (writers w) p h)
     \<and> length (forward_outcomes (writers w) p h) = length (writers w)"
  by (simp add: Write_def Write_loop_eq length_forward_outcomes)

theorem Write_forwards_to_all_witness:
  "\<not> closed \<lparr>writers = [PipeWriter_Write 0, counting_writer 1, PipeWriter_Write 1],
              closers = [], closed = False\<rparr>
   \<and> Write \<lparr>writers = [PipeWriter_Write 0, counting_writer 1, PipeWriter_Write 1],
             closers = [], closed = False\<rparr>
        [1, 2, 3] [abandoned_pipe [], open_pipe [7]]
      = ((3, Some ErrClosedPipe), [abandoned_pipe [], open_pipe [7, 1, 2, 3]])
   \<and> Write \<lparr>writers = [counting_writer 1, PipeWriter_Write 0], closers = [], closed = False\<rparr>
        [1, 2, 3] [open_pipe []]
      = ((3, Some ErrShortWrite), [open_pipe [1, 2, 3]])"
  using Write_forwards_to_all
          [of "\<lparr>writers = [PipeWriter_Write 0, counting_writer 1, PipeWriter_Write 1],
                closers = [], closed = False\<rparr>"
              "[1, 2, 3]" "[abandoned_pipe [], open_pipe [7]]"]
        Write_forwards_to_all
          [of "\<lparr>writers = [counting_writer 1, PipeWriter_Write 0], closers = [], closed = False\<rparr>"
              "[1, 2, 3]" "[open_pipe []]"]
  by (simp add: PipeWriter_Write_def counting_writer_def abandoned_pipe_def open_pipe_def
      pipe_done_def writeCloseError_def)

text \<open>
  C4. Once \<open>Close\<close> has been called on a write endpoint, the endpoint is closed; in
  that state \<open>Write\<close> returns the count 0 and the closed-pipe error and leaves the
  store as it is, whatever the store holds by then, and \<open>Close\<close> leaves the endpoint in
  that state. (\<open>Write\<close> never changes the endpoint, so the state lasts for every later
  call.) Both calls are total functions: they return.
\<close>

theorem Write_after_Close:
  "(case Close w h of
      (e, w', h') \<Rightarrow>
        closed w'
        \<and> Write w' p h'' = ((0, Some ErrClosedPipe), h'')
        \<and> Close w' h'' = (None, w', h''))"
  by (simp add: Close_def Write_def split: prod.splits)

text \<open>
  C10. \<open>SingleInMultiOutPipe\<close> does not check its argument: with 0 it returns a write
  endpoint without writers and closers and no read endpoint, allocating nothing, and
  on that endpoint every \<open>Write\<close> returns the full length and no error while the store
  stays as it is.
\<close>

theorem zero_readers:
  "SingleInMultiOutPipe 0 h = Inr ((\<lparr>writers = [], closers = [], closed = False\<rparr>, []), h)
   \<and> Write \<lparr>writers = [], closers = [], closed = False\<rparr> p h' = ((int (length p), None), h')"
  by (simp add: SingleInMultiOutPipe_def Write_def)

section \<open>A broadcaster on its pipes\<close>

lemma Pipe_loop_eq:
  "Pipe_loop k h =
     ((map PipeWriter_Write [length h..<length h + k],
       map PipeWriter_Close [length h..<length h + k],
       map mk_reader [length h..<length h + k]),
      h @ replicate k new_pipe)"
proof (induction k arbitrary: h)
  case 0
  then show ?case by simp
next
  case (Suc k)
  have "[length h..<length h + Suc k] = length h # [Suc (length h)..<Suc (length h) + k]"
    by (simp add: upt_conv_Cons)
  then show ?case
    by (simp add: io_Pipe_def Suc.IH mk_reader_def replicate_app_Cons_same del: upt_Suc)
qed

lemma PipeWriter_Write_at:
  "PipeWriter_Write (length h) b (h @ q # qs) = (forward_outcome b q, h @ deliver b q # qs)"
  by (simp add: PipeWriter_Write_def forward_outcome_def deliver_def)

lemma forward_all_pipes:
  "forward_all (map PipeWriter_Write [length h..<length h + length ps]) b (h @ ps)
     = h @ map (deliver b) ps"
proof (induction ps arbitrary: h)
  case Nil
  then show ?case by simp
next
  case (Cons q qs)
  have "forward_all (map PipeWriter_Write [length (h @ [deliver b q])..<length (h @ [deliver b q]) + length qs])
          b ((h @ [deliver b q]) @ qs) = (h @ [deliver b q]) @ map (deliver b) qs"
    by (rule Cons.IH)
  then show ?case
    by (simp add: upt_conv_Cons PipeWriter_Write_at del: upt_Suc)
qed

lemma forward_outcomes_pipes:
  "forward_outcomes (map PipeWriter_Write [length h..<length h + length ps]) b (h @ ps)
     = map (forward_outcome b) ps"
proof (induction ps arbitrary: h)
  case Nil
  then show ?case by simp
next
  case (Cons q qs)
  have "forward_outcomes (map PipeWriter_Write [length (h @ [deliver b q])..<length (h @ [deliver b q]) + length qs])
          b ((h @ [deliver b q]) @ qs) = map (forward_outcome b) qs"
    by (rule Cons.IH)
  then show ?case
    by (simp add: upt_conv_Cons PipeWriter_Write_at del: upt_Suc)
qed

lemma Write_pipes:
  "Write \<lparr>writers = map PipeWriter_Write [length h..<length h + length ps], closers = cl,
          closed = False\<rparr> b (h @ ps)
   = ((int (length b), first_failure (length b) (map (forward_outcome b) ps)),
      h @ map (deliver b) ps)"
  by (simp add: Write_def Write_loop_eq forward_all_pipes forward_outcomes_pipes)

lemma PipeWriter_Close_at:
  "PipeWriter_Close (length h) (h @ q # qs) = (None, h @ close_write q # qs)"
  by (simp add: PipeWriter_Close_def close_write_def)

lemma Close_loop_pipes:
  "Close_loop (map PipeWriter_Close [length h..<length h + length ps]) errs (h @ ps)
     = (errs, h @ map close_write ps)"
proof (induction ps arbitrary: h)
  case Nil
  then show ?case by simp
next
  case (Cons q qs)
  have "Close_loop (map PipeWriter_Close [length (h @ [close_write q])..<length (h @ [close_write q]) + length qs])
          errs ((h @ [close_write q]) @ qs) = (errs, (h @ [close_write q]) @ map close_write qs)"
    by (rule Cons.IH)
  then show ?case
    by (simp add: upt_conv_Cons PipeWriter_Close_at del: upt_Suc)
qed

text \<open>A read into a buffer that is not empty never returns no bytes and no error.\<close>

lemma PipeReader_Read_not_empty: "0 < k \<Longrightarrow> fst (PipeReader_Read a k h) \<noteq> Got []"
  by (simp add: PipeReader_Read_def)

text \<open>
  Copying from a pipe whose write half is closed and whose read half is open ends
  without an error, with all the bytes of the pipe appended to the destination.
\<close>

lemma io_Copy_closed_pipe:
  "rerr q = None \<Longrightarrow> werr q = Some EOF \<Longrightarrow>
   io_Copy (length h) dst (h @ q # qs)
     = ((dst @ pending q, Finished None), h @ q\<lparr>pending := []\<rparr> # qs)"
proof (induction "length (pending q)" arbitrary: q dst rule: less_induct)
  case less
  show ?case
  proof (cases "pending q = []")
    case True
    have "q\<lparr>pending := []\<rparr> = q" using True by simp
    then show ?thesis
      using less.prems True
      by (subst io_Copy.simps) (simp add: PipeReader_Read_def readCloseError_def)
  next
    case False
    let ?k = io_Copy_bufsize
    let ?q' = "q\<lparr>pending := drop ?k (pending q)\<rparr>"
    have k: "0 < ?k" by (simp add: io_Copy_bufsize_def)
    have rd: "PipeReader_Read (length h) ?k (h @ q # qs)
                = (Got (take ?k (pending q)), h @ ?q' # qs)"
      using less.prems False by (simp add: PipeReader_Read_def)
    have ne: "take ?k (pending q) \<noteq> []" using False k by simp
    have shorter: "length (pending ?q') < length (pending q)" using False k by simp
    have "io_Copy (length h) (dst @ take ?k (pending q)) (h @ ?q' # qs)
            = (((dst @ take ?k (pending q)) @ pending ?q', Finished None),
               h @ ?q'\<lparr>pending := []\<rparr> # qs)"
      using less.prems by (intro less.hyps[OF shorter]) simp_all
    then show ?thesis
      using rd ne by (subst io_Copy.simps) simp
  qed
qed

lemma drain_all_Cons:
  "io_Copy (Reader r) [] h = (out, h1) \<Longrightarrow>
   fst (drain_all (r # rs) h) = out # fst (drain_all rs h1)"
  by (simp split: prod.splits)

lemma drain_all_pipes_map:
  "fst (drain_all (map mk_reader [length h..<length h + length Ps]) (h @ map closed_pipe Ps))
     = map (\<lambda>P. (P, Finished None)) Ps"
proof (induction Ps arbitrary: h)
  case Nil
  then show ?case by simp
next
  case (Cons P Ps)
  let ?rest = "map closed_pipe Ps"
  let ?h' = "h @ [closed_pipe []]"
  have cp: "io_Copy (length h) [] (h @ closed_pipe P # ?rest)
      = (([] @ pending (closed_pipe P), Finished None),
         h @ (closed_pipe P)\<lparr>pending := []\<rparr> # ?rest)"
    by (rule io_Copy_closed_pipe) (simp_all add: closed_pipe_def)
  have cp': "io_Copy (length h) [] (h @ closed_pipe P # ?rest) = ((P, Finished None), ?h' @ ?rest)"
    unfolding cp by (simp add: closed_pipe_def)
  have ih: "fst (drain_all (map mk_reader [length ?h'..<length ?h' + length Ps]) (?h' @ ?rest))
              = map (\<lambda>P. (P, Finished None)) Ps"
    by (rule Cons.IH)
  have up: "[length h..<length h + length (P # Ps)] = length h # [length ?h'..<length ?h' + length Ps]"
    by (simp add: upt_conv_Cons del: upt_Suc)
  have rd: "Reader (mk_reader (length h)) = length h"
    by (simp add: mk_reader_def)
  have "fst (drain_all (mk_reader (length h) # map mk_reader [length ?h'..<length ?h' + length Ps])
               (h @ closed_pipe P # ?rest))
          = (P, Finished None) # map (\<lambda>P. (P, Finished None)) Ps"
    by (simp only: drain_all_Cons[of "mk_reader (length h)", unfolded rd, OF cp'] ih)
  then show ?case
    by (simp only: up list.map)
qed

lemma first_failure_all_written:
  "first_failure (length b) (replicate n (int (length b), None)) = None"
  by (induction n) simp_all

lemma Write_open_pipes:
  "Write \<lparr>writers = map PipeWriter_Write [length h..<length h + n], closers = cl,
          closed = False\<rparr> b (h @ replicate n (open_pipe B))
   = ((int (length b), None), h @ replicate n (open_pipe (B @ b)))"
  using Write_pipes[of h "replicate n (open_pipe B)" cl b]
  by (simp add: first_failure_all_written forward_outcome_def deliver_def open_pipe_def
      pipe_done_def)

lemma Write_chunks_open_pipes:
  "Write_chunks \<lparr>writers = map PipeWriter_Write [length h..<length h + n], closers = cl,
                 closed = False\<rparr> cs (h @ replicate n (open_pipe B))
   = (map (\<lambda>c. (int (length c), None)) cs, h @ replicate n (open_pipe (B @ concat cs)))"
  by (induction cs arbitrary: B) (simp_all add: Write_open_pipes)

lemma first_failure_one_failed:
  "i < n \<Longrightarrow> first_failure len ((replicate n (int len, None))[i := (k, Some e)]) = Some e"
proof (induction n arbitrary: i)
  case 0
  then show ?case by simp
next
  case (Suc n)
  then show ?case by (cases i) simp_all
qed

lemma Write_one_abandoned:
  assumes "i < n"
  shows "Write \<lparr>writers = map PipeWriter_Write [length h..<length h + n], closers = cl,
          closed = False\<rparr> b (h @ (replicate n (open_pipe B))[i := abandoned_pipe B0])
   = ((int (length b), Some ErrClosedPipe),
      h @ (replicate n (open_pipe (B @ b)))[i := abandoned_pipe B0])"
proof -
  let ?ps = "(replicate n (open_pipe B))[i := abandoned_pipe B0]"
  have d: "map (deliver b) ?ps = (replicate n (open_pipe (B @ b)))[i := abandoned_pipe B0]"
    by (simp add: map_update deliver_def open_pipe_def abandoned_pipe_def pipe_done_def)
  have o: "map (forward_outcome b) ?ps
             = (replicate n (int (length b), None))[i := (0, Some ErrClosedPipe)]"
    by (simp add: map_update forward_outcome_def open_pipe_def abandoned_pipe_def pipe_done_def
        writeCloseError_def)
  have "length ?ps = n" by simp
  then show ?thesis
    using Write_pipes[of h ?ps cl b] assms
    by (simp only: d o first_failure_one_failed)
qed

lemma Write_chunks_one_abandoned:
  assumes "i < n"
  shows "Write_chunks \<lparr>writers = map PipeWriter_Write [length h..<length h + n], closers = cl,
          closed = False\<rparr> cs (h @ (replicate n (open_pipe B))[i := abandoned_pipe B0])
   = (map (\<lambda>c. (int (length c), Some ErrClosedPipe)) cs,
      h @ (replicate n (open_pipe (B @ concat cs)))[i := abandoned_pipe B0])"
  using assms by (induction cs arbitrary: B) (simp_all add: Write_one_abandoned)

lemma Reader_Close_open_pipe:
  assumes "i < n"
  shows "Reader_Close (map mk_reader [length h..<length h + n] ! i) (h @ replicate n (open_pipe B))
     = (None, h @ (replicate n (open_pipe B))[i := abandoned_pipe B])"
proof -
  have r: "map mk_reader [length h..<length h + n] ! i = mk_reader (length h + i)"
    using assms by simp
  have u: "(h @ replicate n (open_pipe B))[length h + i := abandoned_pipe B]
           = h @ (replicate n (open_pipe B))[i := abandoned_pipe B]"
    by (simp add: list_update_append)
  have "PipeReader_Close (length h + i) (h @ replicate n (open_pipe B))
          = (None, (h @ replicate n (open_pipe B))[length h + i := abandoned_pipe B])"
    using assms by (simp add: PipeReader_Close_def nth_append open_pipe_def abandoned_pipe_def)
  then show ?thesis
    by (simp only: r u Reader_Close_def mk_reader_def SingleInMultiOutPipeReader.simps option.case)
qed

lemma first_failure_none:
  "first_failure (length b) (map (forward_outcome b) (map open_pipe Ps)) = None"
  by (induction Ps) (simp_all add: forward_outcome_def open_pipe_def pipe_done_def)

lemma Write_open_pipes_map:
  "n = length Ps \<Longrightarrow>
   Write \<lparr>writers = map PipeWriter_Write [length h..<length h + n], closers = cl,
          closed = False\<rparr> b (h @ map open_pipe Ps)
   = ((int (length b), None), h @ map open_pipe (map (\<lambda>P. P @ b) Ps))"
proof -
  assume n: "n = length Ps"
  have d: "map (deliver b) (map open_pipe Ps) = map open_pipe (map (\<lambda>P. P @ b) Ps)"
    by (simp add: deliver_def open_pipe_def pipe_done_def)
  have "Write \<lparr>writers = map PipeWriter_Write
                  [length h..<length h + length (map open_pipe Ps)], closers = cl,
          closed = False\<rparr> b (h @ map open_pipe Ps)
        = ((int (length b), first_failure (length b) (map (forward_outcome b) (map open_pipe Ps))),
           h @ map (deliver b) (map open_pipe Ps))"
    by (rule Write_pipes)
  then show ?thesis
    unfolding n by (simp only: length_map first_failure_none d)
qed

lemma Read_open_pipes_map:
  assumes "i < length Ps"
  shows "PipeReader_Read (length h + i) k (h @ map open_pipe Ps)
     = (if Ps ! i = [] then (Suspended, h @ map open_pipe Ps)
        else (Got (take k (Ps ! i)), h @ map open_pipe (Ps[i := drop k (Ps ! i)])))"
  using assms
  by (simp add: PipeReader_Read_def nth_append open_pipe_def list_update_append map_update)

lemma run_steps_invariant:
  assumes "length Ps = n" "length outs = n"
  shows "\<exists>Ps' outs'.
     run_steps \<lparr>writers = map PipeWriter_Write [length h..<length h + n], closers = cl,
                 closed = False\<rparr>
       (map mk_reader [length h..<length h + n]) steps (h @ map open_pipe Ps, res, outs)
       = (h @ map open_pipe Ps', res @ write_results steps, outs')
     \<and> length Ps' = n \<and> length outs' = n
     \<and> map2 (@) outs' Ps' = map (\<lambda>x. x @ written steps) (map2 (@) outs Ps)"
  using assms
proof (induction steps arbitrary: Ps outs res)
  case Nil
  then show ?case by (intro exI[of _ Ps] exI[of _ outs]) simp
next
  case (Cons s steps)
  let ?w = "\<lparr>writers = map PipeWriter_Write [length h..<length h + n], closers = cl,
             closed = False\<rparr>"
  let ?rs = "map mk_reader [length h..<length h + n]"
  show ?case
  proof (cases s)
    case (DoWrite c)
    let ?Ps1 = "map (\<lambda>P. P @ c) Ps"
    have wr: "Write ?w c (h @ map open_pipe Ps) = ((int (length c), None), h @ map open_pipe ?Ps1)"
      using Cons.prems by (simp add: Write_open_pipes_map)
    have l1: "length ?Ps1 = n" using Cons.prems by simp
    obtain Ps' outs' where
      run: "run_steps ?w ?rs steps (h @ map open_pipe ?Ps1, res @ [(int (length c), None)], outs)
              = (h @ map open_pipe Ps', (res @ [(int (length c), None)]) @ write_results steps, outs')"
      and len: "length Ps' = n" "length outs' = n"
      and inv: "map2 (@) outs' Ps' = map (\<lambda>x. x @ written steps) (map2 (@) outs ?Ps1)"
      using Cons.IH[OF l1 Cons.prems(2), of "res @ [(int (length c), None)]"] by blast
    have m: "map2 (@) outs ?Ps1 = map (\<lambda>x. x @ c) (map2 (@) outs Ps)"
      using Cons.prems
      by (intro nth_equalityI) simp_all
    have inv': "map2 (@) outs' Ps' = map (\<lambda>x. x @ written (s # steps)) (map2 (@) outs Ps)"
      unfolding inv m by (simp add: DoWrite)
    have run': "run_steps ?w ?rs (s # steps) (h @ map open_pipe Ps, res, outs)
                  = (h @ map open_pipe Ps', res @ write_results (s # steps), outs')"
      using run by (simp add: DoWrite wr)
    show ?thesis
      using run' len inv' by blast
  next
    case (DoRead i k)
    show ?thesis
    proof (cases "i < n \<and> Ps ! i \<noteq> []")
      case True
      let ?Ps1 = "Ps[i := drop k (Ps ! i)]"
      let ?outs1 = "outs[i := outs ! i @ take k (Ps ! i)]"
      have rd: "PipeReader_Read (length h + i) k (h @ map open_pipe Ps)
                  = (Got (take k (Ps ! i)), h @ map open_pipe ?Ps1)"
        using True Cons.prems by (simp add: Read_open_pipes_map)
      have l1: "length ?Ps1 = n" "length ?outs1 = n" using Cons.prems by simp_all
      obtain Ps' outs' where
        run: "run_steps ?w ?rs steps (h @ map open_pipe ?Ps1, res, ?outs1)
                = (h @ map open_pipe Ps', res @ write_results steps, outs')"
        and len: "length Ps' = n" "length outs' = n"
        and inv: "map2 (@) outs' Ps' = map (\<lambda>x. x @ written steps) (map2 (@) ?outs1 ?Ps1)"
        using Cons.IH[OF l1, of res] by blast
      have m: "map2 (@) ?outs1 ?Ps1 = map2 (@) outs Ps"
        using Cons.prems True
        by (intro nth_equalityI) (auto simp: nth_list_update)
      have r: "Reader (mk_reader (length h + i)) = length h + i"
        by (simp add: mk_reader_def)
      have inv': "map2 (@) outs' Ps' = map (\<lambda>x. x @ written (s # steps)) (map2 (@) outs Ps)"
        unfolding inv m by (simp add: DoRead)
      have run': "run_steps ?w ?rs (s # steps) (h @ map open_pipe Ps, res, outs)
                    = (h @ map open_pipe Ps', res @ write_results (s # steps), outs')"
        using run True by (simp add: DoRead r rd)
      show ?thesis
        using run' len inv' by blast
    next
      case False
      obtain Ps' outs' where
        run: "run_steps ?w ?rs steps (h @ map open_pipe Ps, res, outs)
                = (h @ map open_pipe Ps', res @ write_results steps, outs')"
        and len: "length Ps' = n" "length outs' = n"
        and inv: "map2 (@) outs' Ps' = map (\<lambda>x. x @ written steps) (map2 (@) outs Ps)"
        using Cons.IH[OF Cons.prems, of res] by blast
      have inv': "map2 (@) outs' Ps' = map (\<lambda>x. x @ written (s # steps)) (map2 (@) outs Ps)"
        unfolding inv by (simp add: DoRead)
      have run': "run_steps ?w ?rs (s # steps) (h @ map open_pipe Ps, res, outs)
                    = (h @ map open_pipe Ps', res @ write_results (s # steps), outs')"
      proof (cases "i < n")
        case True
        then have e: "Ps ! i = []" using False by simp
        have rd: "PipeReader_Read (length h + i) k (h @ map open_pipe Ps)
                  = (Suspended, h @ map open_pipe Ps)"
          using True e Cons.prems by (simp add: Read_open_pipes_map)
        have r: "Reader (mk_reader (length h + i)) = length h + i"
          by (simp add: mk_reader_def)
        show ?thesis
          using run True by (simp add: DoRead r rd)
      next
        case False
        then show ?thesis
          using run by (simp add: DoRead)
      qed
      show ?thesis
        using run' len inv' by blast
    qed
  qed
qed

lemma map2_append_replicate_Nil:
  "map (\<lambda>x. x @ B) (map2 (@) (replicate n []) (replicate n [])) = replicate n B"
  by (induction n) simp_all










section \<open>The archival consumer\<close>

lemma PostImage_error_empty_url:
  "fst (PostImage c env img mimeType h) = Some (url, Some err) \<Longrightarrow> url = ''''"
  by (auto simp: PostImage_def PostImage_copy_def
      split: sum.splits prod.splits copy_end.splits option.splits)

lemma PostImage_refused:
  "PostImage c refusing_env (mk_reader 0) mt [closed_pipe B]
     = (Some ('''', Some (Other ''connection refused'')), [closed_pipe []])"
  using io_Copy_closed_pipe[of "closed_pipe B" "[]" "[]" "[]"]
  by (simp add: PostImage_def PostImage_copy_def refusing_env_def mk_reader_def closed_pipe_def)

section \<open>Claims about a whole broadcast\<close>

text \<open>
  C1. For every number \<open>n\<close> of readers, every store, and every run of writes of chunks
  and reads of the readers in any order and with any buffer sizes:
  \<open>SingleInMultiOutPipe n\<close> returns \<open>n\<close> read endpoints; every \<open>Write\<close> of the run returns
  the full length of its chunk and no error; \<open>Close\<close> returns no error; and when every
  read endpoint is then copied to its end, every copy ends without an error and every
  reader has got, by its reads of the run followed by its copy, exactly the bytes of all
  the chunks in the order written.
\<close>

theorem broadcast_copies:
  "(case SingleInMultiOutPipe (int n) h0 of
      Inl _ \<Rightarrow> False
    | Inr ((w, rs), h1) \<Rightarrow>
        length rs = n \<and>
        (case run_steps w rs steps (h1, [], replicate n []) of
           (h2, res, outs) \<Rightarrow>
             res = write_results steps \<and>
             (case Close w h2 of
                (e, w', h3) \<Rightarrow>
                  e = None \<and>
                  (case drain_all rs h3 of
                     (rest, h4) \<Rightarrow>
                       map snd rest = replicate n (Finished None)
                       \<and> map2 (@) outs (map fst rest) = replicate n (written steps)))))"
proof -
  let ?w = "\<lparr>writers = map PipeWriter_Write [length h0..<length h0 + n],
             closers = map PipeWriter_Close [length h0..<length h0 + n], closed = False\<rparr>"
  let ?rs = "map mk_reader [length h0..<length h0 + n]"
  have np: "replicate n new_pipe = map open_pipe (replicate n [])"
    by (simp add: new_pipe_def open_pipe_def)
  have c: "SingleInMultiOutPipe (int n) h0 = Inr ((?w, ?rs), h0 @ map open_pipe (replicate n []))"
    by (simp add: SingleInMultiOutPipe_def Pipe_loop_eq np)
  obtain Ps outs where
    run: "run_steps ?w ?rs steps (h0 @ map open_pipe (replicate n []), [], replicate n [])
            = (h0 @ map open_pipe Ps, [] @ write_results steps, outs)"
    and len: "length Ps = n" "length outs = n"
    and inv: "map2 (@) outs Ps
                = map (\<lambda>x. x @ written steps) (map2 (@) (replicate n []) (replicate n []))"
    using run_steps_invariant[of "replicate n []" n "replicate n []" h0
            "map PipeWriter_Close [length h0..<length h0 + n]" steps "[]"]
    by auto
  have cw: "map close_write (map open_pipe Ps) = map closed_pipe Ps"
    by (simp add: close_write_def open_pipe_def closed_pipe_def)
  have "Close_loop (map PipeWriter_Close [length h0..<length h0 + length (map open_pipe Ps)])
          [] (h0 @ map open_pipe Ps) = ([], h0 @ map close_write (map open_pipe Ps))"
    by (rule Close_loop_pipes)
  then have cl: "Close ?w (h0 @ map open_pipe Ps) = (None, ?w\<lparr>closed := True\<rparr>, h0 @ map closed_pipe Ps)"
    unfolding cw using len by (simp add: Close_def)
  have dr: "fst (drain_all ?rs (h0 @ map closed_pipe Ps)) = map (\<lambda>P. (P, Finished None)) Ps"
    using drain_all_pipes_map[of h0 Ps] len by simp
  obtain rest h4 where d: "drain_all ?rs (h0 @ map closed_pipe Ps) = (rest, h4)"
    by (metis prod.exhaust)
  have rest: "rest = map (\<lambda>P. (P, Finished None)) Ps"
    using dr d by simp
  have f: "map fst rest = Ps" and s: "map snd rest = replicate n (Finished None)"
    unfolding rest using len by (simp_all add: comp_def map_replicate_const)
  show ?thesis
    using inv unfolding map2_append_replicate_Nil
    by (simp add: c run cl d f s del: map_replicate)
qed

text \<open>
  C6. Let a broadcaster with \<open>n\<close> readers be written some chunks, let then reader \<open>i\<close>
  be closed, and let more chunks be written. Closing the reader returns no error and
  changes the store at the pipe of reader \<open>i\<close> only, which is then closed for reading;
  the write endpoint is not touched. Every later \<open>Write\<close> returns the full length
  of its chunk together with the closed-pipe error, and the store at the end is the
  store of the same writes without the close, but at the pipe of reader \<open>i\<close>, which
  is as it was when it was closed: every other pipe has received every chunk.
\<close>

theorem early_reader_close:
  "i < n \<Longrightarrow>
   (case SingleInMultiOutPipe (int n) h0 of
      Inl _ \<Rightarrow> False
    | Inr ((w, rs), h1) \<Rightarrow>
        (case Write_chunks w cs1 h1 of
           (res1, h2) \<Rightarrow>
             (case Reader_Close (rs ! i) h2 of
                (e, h3) \<Rightarrow>
                  e = None
                  \<and> h3 = h2[length h0 + i := abandoned_pipe (concat cs1)]
                  \<and> (case Write_chunks w cs2 h3 of
                        (res, h4) \<Rightarrow>
                          res = map (\<lambda>c. (int (length c), Some ErrClosedPipe)) cs2
                          \<and> h4 = (snd (Write_chunks w cs2 h2))
                                    [length h0 + i := abandoned_pipe (concat cs1)]
                          \<and> snd (Write_chunks w cs2 h2)
                              = h0 @ replicate n (open_pipe (concat cs1 @ concat cs2))))))"
proof -
  assume i: "i < n"
  have np: "new_pipe = open_pipe []"
    by (simp add: new_pipe_def open_pipe_def)
  have u: "(h0 @ replicate n (open_pipe B))[length h0 + i := q]
           = h0 @ (replicate n (open_pipe B))[i := q]" for B q
    by (simp add: list_update_append)
  show ?thesis
    by (simp add: SingleInMultiOutPipe_def Pipe_loop_eq np Write_chunks_open_pipes
        Reader_Close_open_pipe[OF i] Write_chunks_one_abandoned[OF i] u)
qed

theorem early_reader_close_witness:
  "(0::nat) < 2 \<and>
   (case SingleInMultiOutPipe 2 [] of
      Inl _ \<Rightarrow> False
    | Inr ((w, rs), h1) \<Rightarrow>
        (case Write_chunks w [[1, 2]] h1 of
           (res1, h2) \<Rightarrow>
             (case Reader_Close (rs ! 0) h2 of
                (e, h3) \<Rightarrow>
                  e = None
                  \<and> h3 = [abandoned_pipe [1, 2], open_pipe [1, 2]]
                  \<and> Write_chunks w [[3], [4, 5]] h3
                      = ([(1, Some ErrClosedPipe), (2, Some ErrClosedPipe)],
                         [abandoned_pipe [1, 2], open_pipe [1, 2, 3, 4, 5]])
                  \<and> Write_chunks w [[3], [4, 5]] h2
                      = ([(1, None), (2, None)],
                         [open_pipe [1, 2, 3, 4, 5], open_pipe [1, 2, 3, 4, 5]]))))"
  using early_reader_close
          [where i = 0 and n = 2 and ?h0.0 = "[]" and ?cs1.0 = "[[1, 2]]"
             and ?cs2.0 = "[[3], [4, 5]]"]
  by (simp add: SingleInMultiOutPipe_def numeral_2_eq_2 io_Pipe_def new_pipe_def
      Write_def PipeWriter_Write_def PipeReader_Close_def Reader_Close_def pipe_done_def
      writeCloseError_def abandoned_pipe_def open_pipe_def)





section \<open>Claims about the join and the delivery queue\<close>

text \<open>
  C7. When \<open>PostImage\<close> has returned an error, the reference it returned is the empty
  string; if then the extraction has returned a result and no error, the join of the
  single-shot branch and the join of the subscription handler each do exactly one send
  to the queue, of an artifact with that result and the empty reference. On an open
  queue with room the send appends exactly this artifact to the queue.
\<close>

theorem archival_failure_empty_reference:
  "fst (PostImage c env img mimeType h) = Some (srcImgStoredURL, Some conciergeErr) \<Longrightarrow>
     main_singleShot_join (srcImgStoredURL, Some conciergeErr) (Some r, None) ch
       = chan_send ch \<lparr>GasMeterReadResult = Some r, SrcImageURL = ''''\<rparr>
     \<and> mqttReadGuageSubHandler_join (srcImgStoredURL, Some conciergeErr) (Some r, None) ch
       = chan_send ch \<lparr>GasMeterReadResult = Some r, SrcImageURL = ''''\<rparr>
     \<and> (\<not> chan_closed ch \<and> length (buf ch) < cap ch \<longrightarrow>
          chan_send ch \<lparr>GasMeterReadResult = Some r, SrcImageURL = ''''\<rparr>
            = Returns (ch\<lparr>buf := buf ch @ [\<lparr>GasMeterReadResult = Some r, SrcImageURL = ''''\<rparr>]\<rparr>))"
  using PostImage_error_empty_url[of c env img mimeType h srcImgStoredURL conciergeErr]
  by (simp add: main_singleShot_join_def mqttReadGuageSubHandler_join_def chan_send_def)

theorem archival_failure_empty_reference_witness:
  "fst (PostImage \<lparr>addr = ''http://store'', token = ''t''\<rparr> refusing_env (mk_reader 0)
          ''image/jpeg'' [closed_pipe [1, 2, 3]])
     = Some ('''', Some (Other ''connection refused''))
   \<and> \<not> chan_closed make_chLuggage \<and> length (buf make_chLuggage) < cap make_chLuggage
   \<and> mqttReadGuageSubHandler_join ('''', Some (Other ''connection refused''))
        (Some \<lparr>Read = ''123.4'', Date = ''2025-01-01'', ReadAt = 0, ItTakes = ''1s''\<rparr>, None)
        make_chLuggage
       = Returns (make_chLuggage
           \<lparr>buf := [\<lparr>GasMeterReadResult =
                       Some \<lparr>Read = ''123.4'', Date = ''2025-01-01'', ReadAt = 0, ItTakes = ''1s''\<rparr>,
                     SrcImageURL = ''''\<rparr>]\<rparr>)
   \<and> main_singleShot_join ('''', Some (Other ''connection refused''))
        (Some \<lparr>Read = ''123.4'', Date = ''2025-01-01'', ReadAt = 0, ItTakes = ''1s''\<rparr>, None)
        make_chLuggage
       = Returns (make_chLuggage
           \<lparr>buf := [\<lparr>GasMeterReadResult =
                       Some \<lparr>Read = ''123.4'', Date = ''2025-01-01'', ReadAt = 0, ItTakes = ''1s''\<rparr>,
                     SrcImageURL = ''''\<rparr>]\<rparr>)"
  using archival_failure_empty_reference
          [of "\<lparr>addr = ''http://store'', token = ''t''\<rparr>" refusing_env "mk_reader 0"
              "''image/jpeg''" "[closed_pipe [1, 2, 3]]" "[]" "Other ''connection refused''"
              "\<lparr>Read = ''123.4'', Date = ''2025-01-01'', ReadAt = 0, ItTakes = ''1s''\<rparr>"
              make_chLuggage]
        PostImage_refused[of "\<lparr>addr = ''http://store'', token = ''t''\<rparr>" "''image/jpeg''" "[1, 2, 3]"]
  by (simp add: make_chLuggage_def)

text \<open>
  C8. After \<open>close(chLuggage)\<close> the queue is closed, and a send to it panics: the send
  of the subscription handler's join, and the send of the single-shot join when the
  extraction gave a result. The artifact is not dropped in silence.
\<close>

theorem send_on_closed_queue_panics:
  "close_chan ch = Returns ch' \<Longrightarrow>
     chan_closed ch'
     \<and> chan_send ch' l = Panics SendOnClosedChannel
     \<and> mqttReadGuageSubHandler_join archival extraction ch' = Panics SendOnClosedChannel
     \<and> main_singleShot_join archival (Some r, None) ch' = Panics SendOnClosedChannel"
  by (auto simp: close_chan_def chan_send_def mqttReadGuageSubHandler_join_def
      main_singleShot_join_def split: if_splits prod.splits)

theorem send_on_closed_queue_panics_witness:
  "close_chan make_chLuggage = Returns (make_chLuggage\<lparr>chan_closed := True\<rparr>)
   \<and> mqttReadGuageSubHandler_join (''https://store/abc'', None)
        (Some \<lparr>Read = ''123.4'', Date = ''2025-01-01'', ReadAt = 0, ItTakes = ''1s''\<rparr>, None)
        (make_chLuggage\<lparr>chan_closed := True\<rparr>)
       = Panics SendOnClosedChannel
   \<and> main_singleShot_join (''https://store/abc'', None)
        (Some \<lparr>Read = ''123.4'', Date = ''2025-01-01'', ReadAt = 0, ItTakes = ''1s''\<rparr>, None)
        (make_chLuggage\<lparr>chan_closed := True\<rparr>)
       = Panics SendOnClosedChannel"
  using send_on_closed_queue_panics
          [where ch = make_chLuggage and ch' = "make_chLuggage\<lparr>chan_closed := True\<rparr>"
             and l = "\<lparr>GasMeterReadResult = None, SrcImageURL = ''''\<rparr>"
             and archival = "(''https://store/abc'', None)"
             and extraction =
               "(Some \<lparr>Read = ''123.4'', Date = ''2025-01-01'', ReadAt = 0, ItTakes = ''1s''\<rparr>,
                 None)"
             and r = "\<lparr>Read = ''123.4'', Date = ''2025-01-01'', ReadAt = 0, ItTakes = ''1s''\<rparr>"]
  by (simp add: close_chan_def make_chLuggage_def)

text \<open>
  C2 on the code. When the extraction has failed and has returned no result, the join
  of the subscription handler still sends an artifact, without a reading, to the queue
  (and the consumer of the queue then panics on its first access to the reading); the
  join of the single-shot branch, on the same outcomes, sends nothing.
\<close>

theorem handler_enqueues_failed_extraction:
  "mqttReadGuageSubHandler_join (''https://store/abc'', None)
     (None, Some (Other ''failed to upload'')) make_chLuggage
     = Returns (make_chLuggage
         \<lparr>buf := [\<lparr>GasMeterReadResult = None, SrcImageURL = ''https://store/abc''\<rparr>]\<rparr>)
   \<and> Luggage_Read \<lparr>GasMeterReadResult = None, SrcImageURL = ''https://store/abc''\<rparr>
     = Inl NilPointerDereference
   \<and> main_singleShot_join (''https://store/abc'', None)
       (None, Some (Other ''failed to upload'')) make_chLuggage
     = Returns make_chLuggage"
  by (simp add: mqttReadGuageSubHandler_join_def main_singleShot_join_def chan_send_def
      make_chLuggage_def Luggage_Read_def)

end
